theory Spec2Isabelle
  imports Complex_Main "HOL-Library.Sublist"
begin

section \<open>Numbers, errors and helpers\<close>

text \<open>
  The simulator (\<^verbatim>\<open>main.py\<close>) computes with Python floats. They are modelled here as
  \<^typ>\<open>real\<close>: every arithmetic operation is exact, and there is no rounding, infinity or
  NaN. Everything below is a statement about this exact-arithmetic reading of the code, on
  finite arguments. What doubles do beyond it is outside the model: a quotient that underflows
  to \<open>0.0\<close> (as \<^verbatim>\<open>3 * volume / (4 * math.pi)\<close> does for a mass of \<open>1e-320\<close>, which leaves
  the area \<open>0.0\<close>), and the \<^verbatim>\<open>ValueError\<close> of \<^verbatim>\<open>math.cos\<close> at an infinite angle, raised
  in the constructor before its \<^verbatim>\<open>try\<close> block.
  What Python raises is kept as a value: a float division by zero is
  \<open>Inl ZeroDivisionError\<close>, a list index out of range is \<open>Inl IndexError\<close>.
\<close>

datatype error = ZeroDivisionError | IndexError

type_synonym sample = "real \<times> real \<times> real"

definition G_EARTH :: real where
  "G_EARTH = 9.81"

definition AIR_DENSITY :: real where
  "AIR_DENSITY = 1.225"

definition DRAG_COEFF :: real where
  "DRAG_COEFF = 0.47"

text \<open>\<^verbatim>\<open>def clamp(v, a, b): return max(a, min(b, v))\<close>\<close>

definition clamp :: "real \<Rightarrow> real \<Rightarrow> real \<Rightarrow> real" where
  "clamp v a b = max a (min b v)"

text \<open>\<^verbatim>\<open>math.hypot\<close> and \<^verbatim>\<open>math.radians\<close>.\<close>

definition hypot :: "real \<Rightarrow> real \<Rightarrow> real" where
  "hypot a b = sqrt (a * a + b * b)"

definition radians :: "real \<Rightarrow> real" where
  "radians d = d * pi / 180"

text \<open>Float division \<^verbatim>\<open>a / b\<close>, which raises when \<open>b\<close> is zero.\<close>

definition fdiv :: "real \<Rightarrow> real \<Rightarrow> error + real" where
  "fdiv a b = (if b = 0 then Inl ZeroDivisionError else Inr (a / b))"

section \<open>The projectile\<close>

text \<open>
  The fields of \<^verbatim>\<open>class Projectile\<close>. The attributes \<^verbatim>\<open>x\<close>, \<^verbatim>\<open>y\<close>, \<^verbatim>\<open>t\<close> are named
  \<open>x_cur\<close>, \<open>y_cur\<close>, \<open>t_cur\<close> (a record field is a constant, and one-letter constants would
  capture the variables of every statement), and \<^verbatim>\<open>range\<close> is \<open>range_m\<close> (\<open>range\<close> is
  taken in HOL). The display colour, drawn at random, plays no part in the physics and is
  left out.
\<close>

record projectile =
  angle :: real
  v0 :: real
  mass :: real
  y0 :: real
  air :: bool
  vx :: real
  vy :: real
  x_cur :: real
  y_cur :: real
  t_cur :: real
  dt :: real
  trajectory :: "sample list"
  landed :: bool
  max_height :: real
  final_speed :: real
  flight_time :: real
  range_m :: real
  area :: real

text \<open>
  The body of the \<^verbatim>\<open>try\<close> block of the constructor (lines 84--89), with its result as a
  value, and the \<^verbatim>\<open>except\<close> handler around it (lines 90--91). The two divisions of the
  body are by the non-zero constants \<open>1000.0\<close> and \<open>4 * math.pi\<close>; the power has a positive
  base, where Python's \<^verbatim>\<open>**\<close> is \<open>powr\<close>.
\<close>

definition area_try :: "real \<Rightarrow> error + real" where
  "area_try m =
     (let volume = m / 1000 in
      if volume \<le> 0 then Inr 0.01
      else (let radius = (3 * volume / (4 * pi)) powr (1 / 3)
            in Inr (pi * radius * radius)))"

definition init_area :: "real \<Rightarrow> real" where
  "init_area m = (case area_try m of Inl e \<Rightarrow> 0.01 | Inr a \<Rightarrow> a)"

text \<open>\<^verbatim>\<open>Projectile.__init__(angle_deg, speed, mass, y0, air_resistance)\<close>, lines 57--91.\<close>

definition Projectile_init :: "real \<Rightarrow> real \<Rightarrow> real \<Rightarrow> real \<Rightarrow> bool \<Rightarrow> projectile" where
  "Projectile_init angle_deg speed m h air_resistance =
     (let a = radians angle_deg in
      \<lparr> angle = a, v0 = speed, mass = m, y0 = h, air = air_resistance,
        vx = speed * cos a, vy = speed * sin a,
        x_cur = 0, y_cur = h, t_cur = 0, dt = 0.01,
        trajectory = [(0, 0, h)], landed = False,
        max_height = h, final_speed = 0, flight_time = 0, range_m = 0,
        area = init_area m \<rparr>)"

subsection \<open>One step\<close>

text \<open>
  Lines 100--108: the acceleration. In \<^verbatim>\<open>- (drag_force * (self.vx / v)) / self.mass\<close> the
  unary minus binds tighter than the division, so the quotient is of the negated product.
\<close>

definition accel :: "projectile \<Rightarrow> error + (real \<times> real)" where
  "accel p =
     (let v = hypot (vx p) (vy p) in
      if air p \<and> v > 0 then
        (let drag_force = 0.5 * AIR_DENSITY * DRAG_COEFF * area p * v * v in
         (case fdiv (vx p) v of
            Inl e \<Rightarrow> Inl e
          | Inr ux \<Rightarrow>
         (case fdiv (- (drag_force * ux)) (mass p) of
            Inl e \<Rightarrow> Inl e
          | Inr ax \<Rightarrow>
         (case fdiv (vy p) v of
            Inl e \<Rightarrow> Inl e
          | Inr uy \<Rightarrow>
         (case fdiv (- (drag_force * uy)) (mass p) of
            Inl e \<Rightarrow> Inl e
          | Inr dy \<Rightarrow> Inr (ax, dy - G_EARTH))))))
      else Inr (0, - G_EARTH))"

text \<open>
  Lines 111--122: the Euler update (velocity first, then position with the new velocity), the
  appended sample and the running maximum height.
\<close>

definition integrate :: "real \<times> real \<Rightarrow> projectile \<Rightarrow> projectile" where
  "integrate a p =
     (let vx' = vx p + fst a * dt p;
          vy' = vy p + snd a * dt p;
          x' = x_cur p + vx' * dt p;
          y' = y_cur p + vy' * dt p;
          t' = t_cur p + dt p;
          p1 = p\<lparr> vx := vx', vy := vy', x_cur := x', y_cur := y', t_cur := t',
                  trajectory := trajectory p @ [(t', x', y')] \<rparr>
      in if y' > max_height p1 then p1\<lparr> max_height := y' \<rparr> else p1)"

text \<open>
  Lines 127--143: the landing. \<^verbatim>\<open>trajectory[-1]\<close> and \<^verbatim>\<open>trajectory[-2]\<close> raise on a list
  shorter than two samples.
\<close>

definition land :: "projectile \<Rightarrow> error + projectile" where
  "land p =
     (let tr = trajectory p; n = length tr in
      if n < 2 then Inl IndexError
      else
        (case tr ! (n - 1) of (t2, x2, y2) \<Rightarrow>
        (case tr ! (n - 2) of (t1, x1, y1) \<Rightarrow>
        (case (if y2 = y1 then Inr 0 else fdiv (0 - y1) (y2 - y1)) of
           Inl e \<Rightarrow> Inl e
         | Inr frac0 \<Rightarrow>
            (let frac = clamp frac0 0 1;
                 t_land = t1 + frac * (t2 - t1);
                 x_land = x1 + frac * (x2 - x1)
             in Inr (p\<lparr> flight_time := t_land, range_m := x_land,
                        final_speed := hypot (vx p) (vy p), landed := True,
                        trajectory := tr[n - 1 := (t_land, x_land, 0)] \<rparr>))))))"

text \<open>\<^verbatim>\<open>Projectile.step\<close>, lines 93--143.\<close>

definition step :: "projectile \<Rightarrow> error + projectile" where
  "step p =
     (if landed p then Inr p
      else case accel p of
             Inl e \<Rightarrow> Inl e
           | Inr a \<Rightarrow>
               (let p1 = integrate a p
                in if y_cur p1 \<le> 0 then land p1 else Inr p1))"

text \<open>\<open>n\<close> calls of \<^verbatim>\<open>step\<close> in a row, stopping at the first exception.\<close>

fun steps :: "nat \<Rightarrow> projectile \<Rightarrow> error + projectile" where
  "steps 0 p = Inr p"
| "steps (Suc n) p = (case step p of Inl e \<Rightarrow> Inl e | Inr q \<Rightarrow> steps n q)"

text \<open>The projectiles that exist: built by the constructor, then stepped.\<close>

inductive reachable :: "projectile \<Rightarrow> bool" where
  reach_init: "reachable (Projectile_init angle_deg speed m h air_resistance)"
| reach_step: "reachable p \<Longrightarrow> step p = Inr q \<Longrightarrow> reachable q"

section \<open>The scene\<close>

text \<open>
  The simulation state of \<^verbatim>\<open>class ProjectileApp\<close> (lines 296--298); the widgets, fonts and
  the window are left out. The values read from the four text fields and the toggle are
  arguments of \<open>spawn_projectile\<close>.
\<close>

record app =
  projectiles :: "projectile list"
  is_playing :: bool
  selected_index :: "nat option"

text \<open>\<^verbatim>\<open>spawn_projectile\<close>, lines 356--364.\<close>

definition spawn_projectile :: "real \<Rightarrow> real \<Rightarrow> real \<Rightarrow> real \<Rightarrow> bool \<Rightarrow> app \<Rightarrow> app" where
  "spawn_projectile angle_v speed_v mass_v height_v air_on s =
     (let m = max 0.0001 mass_v;
          h0 = max 0 height_v;
          p = Projectile_init angle_v speed_v m h0 air_on;
          ps = projectiles s @ [p]
      in s\<lparr> projectiles := ps, selected_index := Some (length ps - 1) \<rparr>)"

text \<open>\<^verbatim>\<open>clear_all\<close>, lines 366--368.\<close>

definition clear_all :: "app \<Rightarrow> app" where
  "clear_all s = s\<lparr> projectiles := [], selected_index := None \<rparr>"

text \<open>The stepping loop of \<^verbatim>\<open>update\<close>, lines 452--455.\<close>

fun step_each :: "projectile list \<Rightarrow> error + projectile list" where
  "step_each [] = Inr []"
| "step_each (p # ps) =
     (case (if \<not> landed p then step p else Inr p) of
        Inl e \<Rightarrow> Inl e
      | Inr q \<Rightarrow> (case step_each ps of Inl e \<Rightarrow> Inl e | Inr qs \<Rightarrow> Inr (q # qs)))"

definition update :: "app \<Rightarrow> error + app" where
  "update s =
     (if is_playing s
      then (case step_each (projectiles s) of
              Inl e \<Rightarrow> Inl e
            | Inr qs \<Rightarrow> Inr (s\<lparr> projectiles := qs \<rparr>))
      else Inr s)"

text \<open>
  The bounds of \<^verbatim>\<open>world_to_screen\<close>, lines 469--480 (the same lines stand in \<^verbatim>\<open>draw\<close>,
  515--524): the two running maxima over every sample of every trajectory, the padding and
  the floor.
\<close>

definition scan_sample :: "sample \<Rightarrow> real \<times> real \<Rightarrow> real \<times> real" where
  "scan_sample s m =
     (case s of (u, sx, sy) \<Rightarrow>
     (case m of (max_x, max_y) \<Rightarrow>
        (if sx > max_x then sx else max_x, if sy > max_y then sy else max_y)))"

definition scan_all :: "projectile list \<Rightarrow> real \<times> real" where
  "scan_all ps = fold (\<lambda>p m. fold scan_sample (trajectory p) m) ps (10, 5)"

definition compute_bounds :: "projectile list \<Rightarrow> real \<times> real" where
  "compute_bounds ps =
     (case scan_all ps of (max_x, max_y) \<Rightarrow>
        (max (max_x * 1.2) 0.001, max (max_y * 1.2) 0.001))"

section \<open>Well-formed projectiles\<close>

text \<open>
  What the constructor establishes and every step keeps. While a projectile flies, the last
  sample is its current \<open>(t, x, y)\<close>, the sample times increase strictly and the landing
  metrics still hold their initial \<open>0.0\<close>. Once it has landed, the last sample is
  \<open>(flight_time, range, 0.0)\<close>, and the time field still holds the time of the raw sample
  that the landing overwrote, one step after the sample before it.
\<close>

definition wf :: "projectile \<Rightarrow> bool" where
  "wf p \<longleftrightarrow>
     dt p = 0.01 \<and> trajectory p \<noteq> [] \<and> sorted (map fst (trajectory p)) \<and>
     (if landed p
      then 2 \<le> length (trajectory p) \<and>
           last (trajectory p) = (flight_time p, range_m p, 0) \<and>
           sorted_wrt (<) (map fst (butlast (trajectory p))) \<and>
           t_cur p = fst (trajectory p ! (length (trajectory p) - 2)) + 0.01 \<and>
           fst (trajectory p ! (length (trajectory p) - 2)) \<le> flight_time p \<and>
           flight_time p \<le> t_cur p
      else last (trajectory p) = (t_cur p, x_cur p, y_cur p) \<and>
           sorted_wrt (<) (map fst (trajectory p)) \<and>
           flight_time p = 0 \<and> range_m p = 0 \<and> final_speed p = 0)"

text \<open>
  Concrete projectiles: one at rest on the ground and the state its first step leaves, a
  level shot from a height of ten metres, a shot straight up, a very fast and a slow dive from
  the ground, and a level shot from so low that its first step crosses the ground half way.
\<close>

definition at_rest :: projectile where
  "at_rest = Projectile_init 0 0 1 0 False"

definition at_rest_landed :: projectile where
  "at_rest_landed =
     at_rest\<lparr> vy := - 0.0981, y_cur := - 0.000981, t_cur := 0.01,
              trajectory := [(0, 0, 0), (0, 0, 0)], landed := True,
              final_speed := 0.0981 \<rparr>"

definition level_shot :: projectile where
  "level_shot = Projectile_init 0 5 1 10 True"

definition straight_up :: projectile where
  "straight_up = Projectile_init 90 10 1 0 False"


definition grazing :: projectile where
  "grazing = Projectile_init 0 5 1 0.0004905 False"


section \<open>Basic facts about one step\<close>

subsection \<open>Acceleration, integration and landing\<close>

lemma fdiv_simps: "b \<noteq> 0 \<Longrightarrow> fdiv a b = Inr (a / b)" "fdiv a 0 = Inl ZeroDivisionError"
  by (simp_all add: fdiv_def)

lemma hypot_nonneg: "0 \<le> hypot a b"
  by (simp add: hypot_def)

lemma hypot_axis: "hypot 0 b = \<bar>b\<bar>" "hypot a 0 = \<bar>a\<bar>"
  by (simp_all add: hypot_def)

lemma accel_Inr:
  assumes "air p \<and> hypot (vx p) (vy p) > 0 \<longrightarrow> mass p \<noteq> 0"
  shows "accel p =
    Inr (if air p \<and> hypot (vx p) (vy p) > 0
         then (- (0.5 * AIR_DENSITY * DRAG_COEFF * area p * hypot (vx p) (vy p) *
                   hypot (vx p) (vy p) * (vx p / hypot (vx p) (vy p))) / mass p,
               - (0.5 * AIR_DENSITY * DRAG_COEFF * area p * hypot (vx p) (vy p) *
                   hypot (vx p) (vy p) * (vy p / hypot (vx p) (vy p))) / mass p - G_EARTH)
         else (0, - G_EARTH))"
  using assms by (auto simp: accel_def Let_def fdiv_simps)

lemma accel_Inl:
  "accel p = Inl e \<longleftrightarrow> (e = ZeroDivisionError \<and> air p \<and> hypot (vx p) (vy p) > 0 \<and> mass p = 0)"
  by (auto simp: accel_def Let_def fdiv_def split: sum.splits if_splits)

lemma integrate_fields:
  "vx (integrate a p) = vx p + fst a * dt p"
  "vy (integrate a p) = vy p + snd a * dt p"
  "x_cur (integrate a p) = x_cur p + (vx p + fst a * dt p) * dt p"
  "y_cur (integrate a p) = y_cur p + (vy p + snd a * dt p) * dt p"
  "t_cur (integrate a p) = t_cur p + dt p"
  "trajectory (integrate a p) = trajectory p @ [(t_cur p + dt p, x_cur p + (vx p + fst a * dt p) * dt p, y_cur p + (vy p + snd a * dt p) * dt p)]"
  "max_height (integrate a p) = max (max_height p) (y_cur p + (vy p + snd a * dt p) * dt p)"
  "landed (integrate a p) = landed p"
  "dt (integrate a p) = dt p"
  "mass (integrate a p) = mass p"
  "air (integrate a p) = air p"
  "area (integrate a p) = area p"
  "flight_time (integrate a p) = flight_time p"
  "range_m (integrate a p) = range_m p"
  "final_speed (integrate a p) = final_speed p"
  by (simp_all add: integrate_def Let_def max_def)

lemma land_append:
  assumes "trajectory p = tr @ [(t1, x1, y1), (t2, x2, y2)]"
  shows "land p = Inr (p\<lparr> flight_time := t1 + clamp (if y2 = y1 then 0 else (0 - y1) / (y2 - y1)) 0 1 * (t2 - t1),
                          range_m := x1 + clamp (if y2 = y1 then 0 else (0 - y1) / (y2 - y1)) 0 1 * (x2 - x1),
                          final_speed := hypot (vx p) (vy p), landed := True,
                          trajectory := tr @ [(t1, x1, y1), 
                             (t1 + clamp (if y2 = y1 then 0 else (0 - y1) / (y2 - y1)) 0 1 * (t2 - t1),
                              x1 + clamp (if y2 = y1 then 0 else (0 - y1) / (y2 - y1)) 0 1 * (x2 - x1), 0)] \<rparr>)"
  using assms by (simp add: land_def Let_def nth_append fdiv_def list_update_append)

lemma land_short: "length (trajectory p) < 2 \<Longrightarrow> land p = Inl IndexError"
  by (simp add: land_def)


subsection \<open>The result of a step\<close>

text \<open>
  A landed projectile is returned as it is. A flying one with a non-empty trajectory and a
  defined acceleration always yields a state: the integrated one, landed when its \<open>y \<le> 0\<close>.
\<close>

lemma clamp_unit: "0 \<le> clamp f 0 1" "clamp f 0 1 \<le> 1"
  by (simp_all add: clamp_def)

lemma step_landed: "landed p \<Longrightarrow> step p = Inr p"
  by (simp add: step_def)

lemma step_flying:
  assumes "\<not> landed p" and "trajectory p \<noteq> []" and "accel p = Inr a"
  shows "step p =
    Inr (let q = integrate a p;
             s1 = last (trajectory p);
             f = clamp (if y_cur q = snd (snd s1) then 0
                        else (0 - snd (snd s1)) / (y_cur q - snd (snd s1))) 0 1;
             t_land = fst s1 + f * (t_cur q - fst s1);
             x_land = fst (snd s1) + f * (x_cur q - fst (snd s1))
         in if y_cur q \<le> 0
            then q\<lparr> flight_time := t_land, range_m := x_land,
                    final_speed := hypot (vx q) (vy q), landed := True,
                    trajectory := trajectory p @ [(t_land, x_land, 0)] \<rparr>
            else q)"
proof -
  obtain tr t1 x1 y1 where tr: "trajectory p = tr @ [(t1, x1, y1)]"
    using assms(2) by (metis append_butlast_last_id prod_cases3)
  have "trajectory (integrate a p) = tr @ [(t1, x1, y1), (t_cur (integrate a p), x_cur (integrate a p), y_cur (integrate a p))]"
    by (simp add: integrate_fields tr)
  from land_append[OF this] show ?thesis
    using assms(1,3) by (simp add: step_def Let_def tr)
qed

lemma step_total:
  assumes "trajectory p \<noteq> []" and "air p \<and> hypot (vx p) (vy p) > 0 \<longrightarrow> mass p \<noteq> 0"
  shows "\<exists>q. step p = Inr q"
proof (cases "landed p")
  case True
  then show ?thesis by (simp add: step_landed)
next
  case False
  from accel_Inr[OF assms(2)] obtain a where "accel p = Inr a" by blast
  from step_flying[OF False assms(1) this] show ?thesis by blast
qed

subsection \<open>The invariant\<close>

lemma wf_init: "wf (Projectile_init angle_deg speed m h air_resistance)"
  by (simp add: wf_def Projectile_init_def Let_def)

lemma wf_step:
  assumes "wf p" and "step p = Inr q"
  shows "wf q"
proof (cases "landed p")
  case True
  with assms show ?thesis by (simp add: step_landed)
next
  case False
  note nl = False
  from assms(2) False obtain a where a: "accel p = Inr a"
    by (auto simp: step_def split: sum.splits)
  have ne: "trajectory p \<noteq> []" using assms(1) by (simp add: wf_def)
  obtain tr where tr: "trajectory p = tr @ [(t_cur p, x_cur p, y_cur p)]"
    using assms(1) False ne by (metis wf_def append_butlast_last_id)
  have dt: "dt p = 0.01" using assms(1) by (simp add: wf_def)
  have srt: "sorted_wrt (<) (map fst tr)" "\<forall>u\<in>set tr. fst u < t_cur p"
    using assms(1) False by (auto simp: wf_def tr sorted_wrt_append)
  have z: "flight_time p = 0" "range_m p = 0" "final_speed p = 0"
    using assms(1) False by (auto simp: wf_def)
  define f where "f = clamp (if y_cur (integrate a p) = y_cur p then 0
                        else (0 - y_cur p) / (y_cur (integrate a p) - y_cur p)) 0 1"
  have f01: "0 \<le> f" "f \<le> 1" by (simp_all add: f_def clamp_unit)
  have fb: "0 \<le> f * 0.01" "f * 0.01 \<le> 0.01" using f01 by simp_all
  have q: "q = (let q = integrate a p;
             t_land = t_cur p + f * (t_cur q - t_cur p);
             x_land = x_cur p + f * (x_cur q - x_cur p)
         in if y_cur q \<le> 0
            then q\<lparr> flight_time := t_land, range_m := x_land,
                    final_speed := hypot (vx q) (vy q), landed := True,
                    trajectory := trajectory p @ [(t_land, x_land, 0)] \<rparr>
            else q)"
    using step_flying[OF False ne a] assms(2) by (simp add: tr Let_def f_def)
  show ?thesis
  proof (cases "y_cur (integrate a p) \<le> 0")
    case True
    then show ?thesis using srt z fb nl
      by (auto simp: q Let_def wf_def integrate_fields dt tr sorted_wrt_append sorted_append nth_append
            butlast_append intro: less_imp_le strict_sorted_imp_sorted)
  next
    case False
    then show ?thesis using srt z nl
      by (auto simp: q Let_def wf_def integrate_fields dt tr sorted_wrt_append sorted_append
            intro: less_imp_le strict_sorted_imp_sorted)
  qed
qed

lemma reachable_wf: "reachable p \<Longrightarrow> wf p"
  by (induction rule: reachable.induct) (auto intro: wf_init wf_step)


subsection \<open>The fields after a step\<close>

lemma step_at_rest: "step at_rest = Inr at_rest_landed"
proof -
  have nl: "\<not> landed at_rest" and ne: "trajectory at_rest \<noteq> []"
    by (simp_all add: at_rest_def Projectile_init_def)
  have a: "accel at_rest = Inr (0, - 9.81)"
    by (simp add: accel_def at_rest_def Projectile_init_def G_EARTH_def)
  show ?thesis
    unfolding step_flying[OF nl ne a]
    by (simp add: at_rest_landed_def at_rest_def Projectile_init_def integrate_def Let_def
        clamp_def hypot_axis)
qed

lemma reachable_at_rest_landed: "reachable at_rest_landed"
  using reach_step[OF reach_init step_at_rest[unfolded at_rest_def]] .

lemma step_fields:
  assumes "\<not> landed p" and "trajectory p \<noteq> []" and "accel p = Inr a" and "step p = Inr q"
  shows "vx q = vx p + fst a * dt p"
    and "vy q = vy p + snd a * dt p"
    and "x_cur q = x_cur p + vx q * dt p"
    and "y_cur q = y_cur p + vy q * dt p"
    and "t_cur q = t_cur p + dt p"
    and "landed q = (y_cur q \<le> 0)"
    and "max_height q = max (max_height p) (y_cur q)"
    and "dt q = dt p" and "mass q = mass p" and "air q = air p" and "area q = area p"
  using step_flying[OF assms(1-3)] assms(1,4)
  by (auto simp: Let_def integrate_fields split: if_splits)

lemma step_trajectory:
  assumes "\<not> landed p" and "trajectory p \<noteq> []" and "accel p = Inr a" and "step p = Inr q"
  shows "trajectory q = trajectory p @
           [if landed q then (flight_time q, range_m q, 0) else (t_cur q, x_cur q, y_cur q)]"
  using step_flying[OF assms(1-3)] assms(1,4)
  by (auto simp: Let_def integrate_fields split: if_splits)

lemma step_landing:
  assumes "\<not> landed p" and "trajectory p \<noteq> []" and "accel p = Inr a" and "step p = Inr q"
    and "y_cur q \<le> 0"
  shows "flight_time q = fst (last (trajectory p)) +
           clamp (if y_cur q = snd (snd (last (trajectory p))) then 0
                  else (0 - snd (snd (last (trajectory p)))) / (y_cur q - snd (snd (last (trajectory p))))) 0 1 *
           (t_cur q - fst (last (trajectory p)))"
    and "range_m q = fst (snd (last (trajectory p))) +
           clamp (if y_cur q = snd (snd (last (trajectory p))) then 0
                  else (0 - snd (snd (last (trajectory p)))) / (y_cur q - snd (snd (last (trajectory p))))) 0 1 *
           (x_cur q - fst (snd (last (trajectory p))))"
    and "final_speed q = hypot (vx q) (vy q)"
  using step_flying[OF assms(1-3)] assms(1,4,5)
  by (auto simp: Let_def integrate_fields split: if_splits)

lemma step_not_landing:
  assumes "\<not> landed p" and "trajectory p \<noteq> []" and "accel p = Inr a" and "step p = Inr q"
    and "\<not> y_cur q \<le> 0"
  shows "flight_time q = flight_time p" "range_m q = range_m p" "final_speed q = final_speed p"
  using step_flying[OF assms(1-3)] assms(1,4,5)
  by (auto simp: Let_def integrate_fields split: if_splits)

subsection \<open>The concrete projectiles\<close>

lemma level_shot_fields:
  "\<not> landed level_shot" "air level_shot" "vx level_shot = 5" "vy level_shot = 0"
  "mass level_shot = 1" "y_cur level_shot = 10" "t_cur level_shot = 0"
  "hypot (vx level_shot) (vy level_shot) = 5"
  by (simp_all add: level_shot_def Projectile_init_def radians_def hypot_axis)

lemma straight_up_fields:
  "\<not> landed straight_up" "\<not> air straight_up" "vx straight_up = 0" "vy straight_up = 10"
  "y_cur straight_up = 0" "max_height straight_up = 0" "dt straight_up = 0.01"
  "trajectory straight_up = [(0, 0, 0)]"
  by (simp_all add: straight_up_def Projectile_init_def radians_def)

lemma accel_no_air: "\<not> air p \<Longrightarrow> accel p = Inr (0, - G_EARTH)"
  by (simp add: accel_def)

lemma step_straight_up: "step straight_up = Inr (integrate (0, - G_EARTH) straight_up)"
  by (simp add: step_def accel_no_air straight_up_fields integrate_fields G_EARTH_def)

subsection \<open>Trajectories only grow\<close>

lemma step_prefix: "step p = Inr q \<Longrightarrow> prefix (trajectory p) (trajectory q)"
proof (cases "landed p")
  case True
  assume "step p = Inr q"
  with True show ?thesis by (simp add: step_landed)
next
  case False
  assume q: "step p = Inr q"
  from q False obtain a where a: "accel p = Inr a"
    by (auto simp: step_def split: sum.splits)
  show ?thesis
  proof (cases "trajectory p = []")
    case True
    then show ?thesis by simp
  next
    case ne: False
    show ?thesis unfolding step_trajectory[OF False ne a q] by simp
  qed
qed

lemma steps_prefix: "steps n p = Inr q \<Longrightarrow> prefix (trajectory p) (trajectory q)"
proof (induction n arbitrary: p)
  case 0
  then show ?case by simp
next
  case (Suc n)
  from Suc.prems obtain p' where p': "step p = Inr p'" and r: "steps n p' = Inr q"
    by (auto split: sum.splits)
  from step_prefix[OF p'] Suc.IH[OF r] show ?case by (rule prefix_order.trans)
qed

lemma step_each_prefix:
  "step_each ps = Inr qs \<Longrightarrow> list_all2 (\<lambda>p q. prefix (trajectory p) (trajectory q)) ps qs"
proof (induction ps arbitrary: qs)
  case Nil
  then show ?case by simp
next
  case (Cons p ps)
  then show ?case
    by (auto split: sum.splits if_splits dest: step_prefix)
qed

subsection \<open>The area computed by the constructor\<close>

lemma area_try_Inr:
  "area_try m = Inr (if 0 < m / 1000 then pi * ((3 * (m / 1000) / (4 * pi)) powr (1 / 3))\<^sup>2 else 0.01)"
  by (simp add: area_try_def Let_def power2_eq_square)

lemma init_area_eq:
  "init_area m = (if 0 < m / 1000 then pi * ((3 * (m / 1000) / (4 * pi)) powr (1 / 3))\<^sup>2 else 0.01)"
  unfolding init_area_def area_try_Inr by simp

lemma init_area_pos: "0 < init_area m"
  unfolding init_area_eq by simp

subsection \<open>The bounds as maxima over all samples\<close>

lemma Max_insert_max:
  fixes a :: real
  assumes "finite S"
  shows "Max (insert (max a b) S) = Max (insert a (insert b S))"
proof (cases "S = {}")
  case True
  then show ?thesis by (simp add: max.commute)
next
  case False
  then show ?thesis using assms by (simp add: max.assoc)
qed

lemma fold_scan_sample:
  "fold scan_sample tr (a, b) =
     (Max (insert a ((\<lambda>s. fst (snd s)) ` set tr)), Max (insert b ((\<lambda>s. snd (snd s)) ` set tr)))"
proof (induction tr arbitrary: a b)
  case Nil
  then show ?case by simp
next
  case (Cons s tr)
  obtain u sx sy where s: "s = (u, sx, sy)" by (cases s) auto
  have 1: "scan_sample s (a, b) = (max a sx, max b sy)"
    by (simp add: scan_sample_def s max_def)
  show ?case
    by (simp add: 1 Cons.IH Max_insert_max) (simp add: s)
qed

lemma fold_scan_projectiles:
  "fold (\<lambda>p m. fold scan_sample (trajectory p) m) ps (a, b) =
     (Max (insert a (\<Union>p\<in>set ps. (\<lambda>s. fst (snd s)) ` set (trajectory p))),
      Max (insert b (\<Union>p\<in>set ps. (\<lambda>s. snd (snd s)) ` set (trajectory p))))"
proof (induction ps arbitrary: a b)
  case Nil
  then show ?case by simp
next
  case (Cons p ps)
  have f: "finite (\<Union>p\<in>set ps. (\<lambda>s. fst (snd s)) ` set (trajectory p))"
          "finite (\<Union>p\<in>set ps. (\<lambda>s. snd (snd s)) ` set (trajectory p))"
          "finite ((\<lambda>s. fst (snd s)) ` set (trajectory p))"
          "finite ((\<lambda>s. snd (snd s)) ` set (trajectory p))"
    by simp_all
  have m: "Max (insert (Max (insert c A)) B) = Max (insert c (A \<union> B))"
    if "finite A" "finite B" for c :: real and A B
  proof (cases "B = {}")
    case True
    then show ?thesis by simp
  next
    case False
    have "Max (insert c (A \<union> B)) = Max (insert c A \<union> B)" by simp
    also have "\<dots> = max (Max (insert c A)) (Max B)"
      using that False by (intro Max_Un) auto
    finally show ?thesis using that False by simp
  qed
  show ?case
    by (simp add: fold_scan_sample Cons.IH m[OF f(3) f(1)] m[OF f(4) f(2)])
qed


lemma scan_all_eq:
  "scan_all ps =
     (Max (insert 10 (\<Union>p\<in>set ps. (\<lambda>s. fst (snd s)) ` set (trajectory p))),
      Max (insert 5 (\<Union>p\<in>set ps. (\<lambda>s. snd (snd s)) ` set (trajectory p))))"
  unfolding scan_all_def using fold_scan_projectiles[of ps 10 5] by simp

lemma scan_all_ge: "10 \<le> fst (scan_all ps)" "5 \<le> snd (scan_all ps)"
  unfolding scan_all_eq by simp_all

lemma scan_all_mono:
  assumes "list_all2 (\<lambda>p q. prefix (trajectory p) (trajectory q)) ps qs"
  shows "fst (scan_all ps) \<le> fst (scan_all qs)" "snd (scan_all ps) \<le> snd (scan_all qs)"
proof -
  have sub: "set (trajectory p) \<subseteq> (\<Union>q\<in>set qs. set (trajectory q))" if "p \<in> set ps" for p
  proof -
    from that obtain i where i: "i < length ps" "ps ! i = p"
      by (auto simp: in_set_conv_nth)
    with assms have "i < length qs" "prefix (trajectory p) (trajectory (qs ! i))"
      by (auto simp: list_all2_conv_all_nth)
    then have "qs ! i \<in> set qs" "set (trajectory p) \<subseteq> set (trajectory (qs ! i))"
      by (simp_all add: set_mono_prefix)
    then show ?thesis by blast
  qed
  have "(\<Union>p\<in>set ps. f ` set (trajectory p)) \<subseteq> (\<Union>q\<in>set qs. f ` set (trajectory q))"
    for f :: "sample \<Rightarrow> real"
    using sub by blast
  then have "Max (insert c (\<Union>p\<in>set ps. f ` set (trajectory p)))
      \<le> Max (insert c (\<Union>q\<in>set qs. f ` set (trajectory q)))"
    for f :: "sample \<Rightarrow> real" and c
    by (intro Max_mono) auto
  then show "fst (scan_all ps) \<le> fst (scan_all qs)" "snd (scan_all ps) \<le> snd (scan_all qs)"
    unfolding scan_all_eq by simp_all
qed

lemma compute_bounds_eq:
  "compute_bounds ps = (max (fst (scan_all ps) * 1.2) 0.001, max (snd (scan_all ps) * 1.2) 0.001)"
  by (simp add: compute_bounds_def split: prod.splits)

lemma compute_bounds_floor_inactive:
  "compute_bounds ps = (fst (scan_all ps) * 1.2, snd (scan_all ps) * 1.2)"
  using scan_all_ge[of ps] by (simp add: compute_bounds_eq max_def)

lemma update_bounds_monotone:
  assumes "update s = Inr s'"
  shows "fst (compute_bounds (projectiles s)) \<le> fst (compute_bounds (projectiles s'))"
    and "snd (compute_bounds (projectiles s)) \<le> snd (compute_bounds (projectiles s'))"
proof -
  have "list_all2 (\<lambda>p q. prefix (trajectory p) (trajectory q)) (projectiles s) (projectiles s')"
  proof (cases "is_playing s")
    case True
    with assms obtain qs where "step_each (projectiles s) = Inr qs" "s' = s\<lparr> projectiles := qs \<rparr>"
      by (auto simp: update_def split: sum.splits)
    then show ?thesis using step_each_prefix by simp
  next
    case False
    with assms have "s' = s" by (simp add: update_def)
    then show ?thesis by (simp add: list_all2_same)
  qed
  from scan_all_mono[OF this]
  show "fst (compute_bounds (projectiles s)) \<le> fst (compute_bounds (projectiles s'))"
    and "snd (compute_bounds (projectiles s)) \<le> snd (compute_bounds (projectiles s'))"
    by (auto simp: compute_bounds_eq max_def)
qed

subsection \<open>Steps of a projectile with positive mass\<close>

lemma step_mass:
  assumes "wf p" and "step p = Inr q"
  shows "mass q = mass p"
proof (cases "landed p")
  case True
  with assms(2) show ?thesis by (simp add: step_landed)
next
  case False
  have ne: "trajectory p \<noteq> []" using assms(1) by (simp add: wf_def)
  from assms(2) False obtain a where a: "accel p = Inr a"
    by (auto simp: step_def split: sum.splits)
  show ?thesis by (rule step_fields(9)[OF False ne a assms(2)])
qed

lemma steps_total:
  assumes "wf p" and "0 < mass p"
  shows "\<exists>q. steps n p = Inr q \<and> mass q = mass p"
  using assms
proof (induction n arbitrary: p)
  case 0
  then show ?case by simp
next
  case (Suc n)
  have ne: "trajectory p \<noteq> []" using Suc.prems(1) by (simp add: wf_def)
  have "air p \<and> 0 < hypot (vx p) (vy p) \<longrightarrow> mass p \<noteq> 0" using Suc.prems(2) by simp
  from step_total[OF ne this] obtain p' where p': "step p = Inr p'" by blast
  have m: "mass p' = mass p" by (rule step_mass[OF Suc.prems(1) p'])
  from Suc.IH[OF wf_step[OF Suc.prems(1) p']] m Suc.prems(2)
  obtain q where "steps n p' = Inr q" "mass q = mass p'" by auto
  then show ?case using p' m by simp
qed

subsection \<open>The first step from the ground\<close>

text \<open>
  The constructor with starting height \<open>0\<close> leaves the state that the first-step facts
  below start from, whatever it computed for \<open>vx\<close> and \<open>vy\<close>.
\<close>

lemma init_ground_fields:
  "\<not> landed (Projectile_init a s m 0 b)"
  "trajectory (Projectile_init a s m 0 b) = [(0, 0, 0)]"
  "x_cur (Projectile_init a s m 0 b) = 0"
  "y_cur (Projectile_init a s m 0 b) = 0"
  "t_cur (Projectile_init a s m 0 b) = 0"
  "dt (Projectile_init a s m 0 b) = 0.01"
  "0 \<le> area (Projectile_init a s m 0 b)"
  "mass (Projectile_init a s m 0 b) = m"
  "air (Projectile_init a s m 0 b) = b"
  using init_area_pos[of m] by (simp_all add: Projectile_init_def Let_def)






lemma step_zero_mass_raises:
  "step (Projectile_init (- 90) 1 0 0 True) = Inl ZeroDivisionError"
  by (simp add: step_def accel_def Let_def Projectile_init_def radians_def hypot_axis fdiv_def)



subsection \<open>Interpolated landing and the maximum height\<close>

lemma grazing_fields:
  "\<not> landed grazing" "\<not> air grazing" "trajectory grazing = [(0, 0, 0.0004905)]"
  "vx grazing = 5" "vy grazing = 0" "x_cur grazing = 0" "y_cur grazing = 0.0004905"
  "t_cur grazing = 0" "dt grazing = 0.01"
  by (simp_all add: grazing_def Projectile_init_def radians_def)

lemma step_y0:
  assumes "step p = Inr q"
  shows "y0 q = y0 p"
  using assms
  by (auto simp: step_def land_def integrate_def Let_def split: if_splits sum.splits prod.splits)

lemma max_height_above_start:
  assumes "reachable p"
  shows "y0 p \<le> max_height p"
  using assms
proof (induction rule: reachable.induct)
  case (reach_init angle_deg speed m h air_resistance)
  show ?case by (simp add: Projectile_init_def Let_def)
next
  case (reach_step p q)
  have ne: "trajectory p \<noteq> []"
    using reachable_wf[OF reach_step.hyps(1)] by (simp add: wf_def)
  show ?case
  proof (cases "landed p")
    case True
    with reach_step show ?thesis by (simp add: step_landed)
  next
    case False
    from reach_step.hyps(2) False obtain a where a: "accel p = Inr a"
      by (auto simp: step_def split: sum.splits)
    from step_fields(7)[OF False ne a reach_step.hyps(2)] step_y0[OF reach_step.hyps(2)]
      reach_step.IH
    show ?thesis by simp
  qed
qed

section \<open>The claims\<close>

text \<open>
  C1. A flying projectile whose divisions are defined (the drag branch divides by the mass)
  is advanced by one call of \<^verbatim>\<open>step\<close> as follows. With \<open>v = hypot vx vy\<close>: without air
  resistance or at \<open>v = 0\<close> the acceleration is \<open>(0, -9.81)\<close>; otherwise the drag magnitude is
  \<open>Fd = 0.5 * 1.225 * 0.47 * area * v\<^sup>2\<close> and the acceleration is
  \<open>-(Fd * (vx / v)) / mass\<close> and \<open>-(Fd * (vy / v)) / mass - 9.81\<close>. The velocity is updated
  first, the position with the new velocity, the time grows by \<open>0.01\<close>, and the trajectory
  grows by one sample: the new \<open>(t, x, y)\<close>, which the landing of the same call (exactly when
  the new \<open>y \<le> 0\<close>) replaces by \<open>(flight_time, range, 0)\<close>.
\<close>

theorem step_acceleration_and_integration:
  assumes "reachable p" and "\<not> landed p"
    and "air p \<and> 0 < hypot (vx p) (vy p) \<longrightarrow> mass p \<noteq> 0"
  shows "\<exists>q. step p = Inr q \<and>
     (let v = hypot (vx p) (vy p);
          Fd = 0.5 * 1.225 * 0.47 * area p * v\<^sup>2;
          ax = (if \<not> air p \<or> v = 0 then 0 else - (Fd * (vx p / v)) / mass p);
          ay = (if \<not> air p \<or> v = 0 then - 9.81 else - (Fd * (vy p / v)) / mass p - 9.81)
      in vx q = vx p + ax * 0.01 \<and> vy q = vy p + ay * 0.01 \<and>
         x_cur q = x_cur p + vx q * 0.01 \<and> y_cur q = y_cur p + vy q * 0.01 \<and>
         t_cur q = t_cur p + 0.01 \<and>
         landed q = (y_cur q \<le> 0) \<and>
         trajectory q = trajectory p @
           [if landed q then (flight_time q, range_m q, 0) else (t_cur q, x_cur q, y_cur q)])"
proof -
  have w: "dt p = 0.01" "trajectory p \<noteq> []"
    using reachable_wf[OF assms(1)] by (simp_all add: wf_def)
  define v where "v = hypot (vx p) (vy p)"
  have v0: "0 \<le> v" by (simp add: v_def hypot_nonneg)
  define a where "a = (if air p \<and> v > 0
         then (- (0.5 * AIR_DENSITY * DRAG_COEFF * area p * v * v * (vx p / v)) / mass p,
               - (0.5 * AIR_DENSITY * DRAG_COEFF * area p * v * v * (vy p / v)) / mass p - G_EARTH)
         else (0, - G_EARTH))"
  have a: "accel p = Inr a"
    using accel_Inr[OF assms(3)] by (simp add: a_def v_def)
  from step_total[OF w(2) assms(3)] obtain q where q: "step p = Inr q" by blast
  note f = step_fields[OF assms(2) w(2) a q] step_trajectory[OF assms(2) w(2) a q]
  have fa: "fst a = (if \<not> air p \<or> v = 0 then 0 else - (0.5 * 1.225 * 0.47 * area p * v\<^sup>2 * (vx p / v)) / mass p)"
    using v0 by (auto simp: a_def AIR_DENSITY_def DRAG_COEFF_def power2_eq_square)
  have sa: "snd a = (if \<not> air p \<or> v = 0 then - 9.81 else - (0.5 * 1.225 * 0.47 * area p * v\<^sup>2 * (vy p / v)) / mass p - 9.81)"
    using v0 by (auto simp: a_def AIR_DENSITY_def DRAG_COEFF_def G_EARTH_def power2_eq_square)
  show ?thesis
    apply (rule exI[of _ q])
    unfolding Let_def v_def[symmetric] fa[symmetric] sa[symmetric]
    using q f by (simp add: w(1))
qed


theorem step_acceleration_and_integration_witness:
  "reachable level_shot \<and> \<not> landed level_shot \<and>
   air level_shot \<and> 0 < hypot (vx level_shot) (vy level_shot) \<and> mass level_shot \<noteq> 0 \<and>
   (\<exists>q. step level_shot = Inr q \<and> vy q = - 0.0981 \<and> y_cur q = 9.999019 \<and>
        t_cur q = 0.01 \<and> \<not> landed q)"
proof -
  have r: "reachable level_shot" unfolding level_shot_def by (rule reach_init)
  have h: "air level_shot \<and> 0 < hypot (vx level_shot) (vy level_shot) \<longrightarrow> mass level_shot \<noteq> 0"
    by (simp add: level_shot_fields)
  from step_acceleration_and_integration[OF r level_shot_fields(1) h] obtain q
    where q: "step level_shot = Inr q"
      and vyq: "vy q = vy level_shot +
         (if \<not> air level_shot \<or> hypot (vx level_shot) (vy level_shot) = 0 then - 9.81
          else - (0.5 * 1.225 * 0.47 * area level_shot * (hypot (vx level_shot) (vy level_shot))\<^sup>2 *
                  (vy level_shot / hypot (vx level_shot) (vy level_shot))) / mass level_shot - 9.81) * 0.01"
      and yq: "y_cur q = y_cur level_shot + vy q * 0.01"
      and tq: "t_cur q = t_cur level_shot + 0.01"
      and lq: "landed q = (y_cur q \<le> 0)"
    unfolding Let_def by blast
  have 1: "vy q = - 0.0981" using vyq by (simp add: level_shot_fields hypot_axis)
  have 2: "y_cur q = 9.999019" using yq by (simp add: 1 level_shot_fields)
  have 3: "t_cur q = 0.01" using tq by (simp add: level_shot_fields)
  have 4: "\<not> landed q" using lq by (simp add: 2)
  show ?thesis using r q 1 2 3 4 by (auto simp: level_shot_fields hypot_axis)
qed

text \<open>
  C2. When the sample that a step produces has \<open>y \<le> 0\<close>, the projectile lands. The last two
  samples at that moment are the last sample \<open>(t1, x1, y1)\<close> of the trajectory before the call
  and the new \<open>(t2, x2, y2)\<close>, which the fields \<open>t\<close>, \<open>x\<close>, \<open>y\<close> keep. The fraction is
  \<open>(0 - y1) / (y2 - y1)\<close>, or \<open>0\<close> when \<open>y2 = y1\<close>, cut off below at \<open>0\<close> and above at \<open>1\<close>;
  flight time and range are interpolated with it, the final speed is the square root of
  \<open>vx\<^sup>2 + vy\<^sup>2\<close> of the velocity after the step, and the new sample is replaced by
  \<open>(flight_time, range, 0)\<close>.
\<close>

theorem landing_interpolation:
  assumes "reachable p" and "\<not> landed p"
    and "air p \<and> 0 < hypot (vx p) (vy p) \<longrightarrow> mass p \<noteq> 0"
  shows "\<exists>q. step p = Inr q \<and>
     (y_cur q \<le> 0 \<longrightarrow>
       (let s1 = last (trajectory p);
            t1 = fst s1; x1 = fst (snd s1); y1 = snd (snd s1);
            t2 = t_cur q; x2 = x_cur q; y2 = y_cur q;
            raw = (if y2 = y1 then 0 else (0 - y1) / (y2 - y1));
            frac = (if raw < 0 then 0 else if 1 < raw then 1 else raw)
        in flight_time q = t1 + frac * (t2 - t1) \<and>
           range_m q = x1 + frac * (x2 - x1) \<and>
           final_speed q = sqrt ((vx q)\<^sup>2 + (vy q)\<^sup>2) \<and>
           landed q \<and>
           trajectory q = trajectory p @ [(flight_time q, range_m q, 0)]))"
proof -
  have ne: "trajectory p \<noteq> []"
    using reachable_wf[OF assms(1)] by (simp add: wf_def)
  from accel_Inr[OF assms(3)] obtain a where a: "accel p = Inr a" by blast
  from step_total[OF ne assms(3)] obtain q where q: "step p = Inr q" by blast
  have c: "clamp r 0 1 = (if r < 0 then 0 else if 1 < r then 1 else r)" for r
    by (simp add: clamp_def max_def min_def)
  have h: "hypot (vx q) (vy q) = sqrt ((vx q)\<^sup>2 + (vy q)\<^sup>2)"
    by (simp add: hypot_def power2_eq_square)
  have "landed q" if "y_cur q \<le> 0"
    using step_fields(6)[OF assms(2) ne a q] that by simp
  then show ?thesis
    using q step_landing[OF assms(2) ne a q] step_trajectory[OF assms(2) ne a q]
    by (auto simp: Let_def c h)
qed

theorem landing_interpolation_witness:
  "reachable grazing \<and> \<not> landed grazing \<and> \<not> air grazing \<and>
   (\<exists>q. step grazing = Inr q \<and> y_cur q \<le> 0 \<and> landed q \<and>
        flight_time q = 0.005 \<and> range_m q = 0.025 \<and>
        trajectory q = [(0, 0, 0.0004905), (0.005, 0.025, 0)])"
proof -
  have r: "reachable grazing" unfolding grazing_def by (rule reach_init)
  have h: "air grazing \<and> 0 < hypot (vx grazing) (vy grazing) \<longrightarrow> mass grazing \<noteq> 0"
    by (simp add: grazing_fields)
  have ne: "trajectory grazing \<noteq> []" by (simp add: grazing_fields)
  have a: "accel grazing = Inr (0, - G_EARTH)" by (rule accel_no_air[OF grazing_fields(2)])
  from landing_interpolation[OF r grazing_fields(1) h] obtain q
    where q: "step grazing = Inr q"
      and i: "y_cur q \<le> 0 \<longrightarrow>
       (let s1 = last (trajectory grazing);
            t1 = fst s1; x1 = fst (snd s1); y1 = snd (snd s1);
            t2 = t_cur q; x2 = x_cur q; y2 = y_cur q;
            raw = (if y2 = y1 then 0 else (0 - y1) / (y2 - y1));
            frac = (if raw < 0 then 0 else if 1 < raw then 1 else raw)
        in flight_time q = t1 + frac * (t2 - t1) \<and>
           range_m q = x1 + frac * (x2 - x1) \<and>
           final_speed q = sqrt ((vx q)\<^sup>2 + (vy q)\<^sup>2) \<and>
           landed q \<and>
           trajectory q = trajectory grazing @ [(flight_time q, range_m q, 0)])"
    by blast
  note f = step_fields(1-5)[OF grazing_fields(1) ne a q]
  have vxq: "vx q = 5" using f(1) by (simp add: grazing_fields)
  have vyq: "vy q = - 0.0981" using f(2) by (simp add: grazing_fields G_EARTH_def)
  have xq: "x_cur q = 0.05" using f(3) by (simp add: vxq grazing_fields)
  have yq: "y_cur q = - 0.0004905" using f(4) by (simp add: vyq grazing_fields)
  have tq: "t_cur q = 0.01" using f(5) by (simp add: grazing_fields)
  have y: "y_cur q \<le> 0" by (simp add: yq)
  from i[rule_format, OF y]
  have "landed q \<and> flight_time q = 0.005 \<and> range_m q = 0.025 \<and>
        trajectory q = [(0, 0, 0.0004905), (flight_time q, range_m q, 0)]"
    by (simp add: Let_def grazing_fields xq yq tq)
  then show ?thesis using r q y grazing_fields(1,2) by auto
qed

text \<open>
  C3. A landed projectile is left as it is by \<^verbatim>\<open>step\<close>: the call returns the same state,
  trajectory included. For every landed projectile that the constructor and \<^verbatim>\<open>step\<close> can
  produce, the last sample has \<open>y = 0\<close>, and the flight time lies between the time of the
  second-to-last sample and the time of the raw last sample of the landing step, which the
  time field keeps and which is one step (\<open>0.01\<close>) later.
\<close>

theorem landed_step_noop_and_bounds:
  assumes "reachable p" and "landed p"
  shows "step p = Inr p \<and>
         2 \<le> length (trajectory p) \<and>
         snd (snd (last (trajectory p))) = 0 \<and>
         fst (trajectory p ! (length (trajectory p) - 2)) \<le> flight_time p \<and>
         flight_time p \<le> t_cur p \<and>
         t_cur p = fst (trajectory p ! (length (trajectory p) - 2)) + 0.01"
  using reachable_wf[OF assms(1)] assms(2) by (simp add: wf_def step_landed)

theorem landed_step_noop_and_bounds_witness:
  "reachable at_rest_landed \<and> landed at_rest_landed \<and>
   step at_rest_landed = Inr at_rest_landed \<and>
   snd (snd (last (trajectory at_rest_landed))) = 0 \<and>
   flight_time at_rest_landed \<le> t_cur at_rest_landed"
proof -
  have l: "landed at_rest_landed" by (simp add: at_rest_landed_def)
  from landed_step_noop_and_bounds[OF reachable_at_rest_landed l] reachable_at_rest_landed l
  show ?thesis by simp
qed

text \<open>
  C4. The sample times of every projectile that the constructor and \<^verbatim>\<open>step\<close> produce are
  in increasing order, and any number of calls of \<^verbatim>\<open>step\<close> keeps the samples recorded
  before them as a prefix of the trajectory: nothing recorded before a call is removed, moved
  or changed by it (the landing overwrites only the sample that the same call appended).
  The order is strict among the samples of a flying projectile and among all but the last
  sample of a landed one; the landing sample may carry the time of the sample before it.
\<close>

theorem trajectory_time_sorted_and_append_only:
  assumes "reachable p"
  shows "sorted (map fst (trajectory p)) \<and>
         sorted_wrt (<) (map fst (if landed p then butlast (trajectory p) else trajectory p)) \<and>
         (\<forall>n q. steps n p = Inr q \<longrightarrow> prefix (trajectory p) (trajectory q))"
  using reachable_wf[OF assms] steps_prefix by (auto simp: wf_def)

theorem trajectory_time_sorted_and_append_only_witness:
  "reachable at_rest \<and> sorted (map fst (trajectory at_rest)) \<and>
   steps 1 at_rest = Inr at_rest_landed \<and>
   prefix (trajectory at_rest) (trajectory at_rest_landed)"
proof -
  have r: "reachable at_rest" unfolding at_rest_def by (rule reach_init)
  have s: "steps 1 at_rest = Inr at_rest_landed" by (simp add: step_at_rest)
  from trajectory_time_sorted_and_append_only[OF r] s r show ?thesis by blast
qed

text \<open>
  C6. The bounds are \<open>max(10, largest x) * 1.2\<close> and \<open>max(5, largest y) * 1.2\<close>, each floored
  to \<open>0.001\<close>, where the largest \<open>x\<close> and \<open>y\<close> range over every sample of every trajectory of
  the collection, landed or not. \<^verbatim>\<open>clear_all\<close> empties the collection and clears the
  selection, and the bounds of the cleared scene are \<open>(12, 6)\<close>.
\<close>

theorem compute_bounds_value_and_clear:
  "compute_bounds ps =
     (max (Max (insert 10 (\<Union>p\<in>set ps. (\<lambda>s. fst (snd s)) ` set (trajectory p))) * 1.2) 0.001,
      max (Max (insert 5 (\<Union>p\<in>set ps. (\<lambda>s. snd (snd s)) ` set (trajectory p))) * 1.2) 0.001) \<and>
   projectiles (clear_all s) = [] \<and> selected_index (clear_all s) = None \<and>
   compute_bounds (projectiles (clear_all s)) = (12, 6)"
  by (simp add: compute_bounds_eq scan_all_eq clear_all_def)

theorem compute_bounds_value_and_clear_witness:
  "compute_bounds [at_rest_landed] = (12, 6) \<and>
   projectiles (clear_all \<lparr> projectiles = [at_rest_landed], is_playing = True, selected_index = Some 0 \<rparr>) = [] \<and>
   selected_index (clear_all \<lparr> projectiles = [at_rest_landed], is_playing = True, selected_index = Some 0 \<rparr>) = None \<and>
   compute_bounds (projectiles (clear_all \<lparr> projectiles = [at_rest_landed], is_playing = True, selected_index = Some 0 \<rparr>)) = (12, 6)"
proof -
  note t = compute_bounds_value_and_clear[of "[at_rest_landed]"
      "\<lparr> projectiles = [at_rest_landed], is_playing = True, selected_index = Some 0 \<rparr>"]
  have "compute_bounds [at_rest_landed] = (12, 6)"
    using conjunct1[OF t] by (simp add: at_rest_landed_def)
  with conjunct2[OF t] show ?thesis by blast
qed

text \<open>
  C7. When every trajectory of a collection is extended by appended samples (each old
  trajectory is a prefix of the new one, projectile by projectile), neither bound shrinks.
\<close>

theorem compute_bounds_monotone:
  assumes "list_all2 (\<lambda>p q. prefix (trajectory p) (trajectory q)) ps qs"
  shows "fst (compute_bounds ps) \<le> fst (compute_bounds qs) \<and>
         snd (compute_bounds ps) \<le> snd (compute_bounds qs)"
  using scan_all_mono[OF assms] by (auto simp: compute_bounds_eq max_def)

theorem compute_bounds_monotone_witness:
  "list_all2 (\<lambda>p q. prefix (trajectory p) (trajectory q)) [straight_up]
     [integrate (0, - G_EARTH) straight_up] \<and>
   fst (compute_bounds [straight_up]) \<le> fst (compute_bounds [integrate (0, - G_EARTH) straight_up]) \<and>
   snd (compute_bounds [straight_up]) \<le> snd (compute_bounds [integrate (0, - G_EARTH) straight_up])"
proof -
  have h: "list_all2 (\<lambda>p q. prefix (trajectory p) (trajectory q)) [straight_up]
     [integrate (0, - G_EARTH) straight_up]"
    by (simp add: integrate_fields)
  from compute_bounds_monotone[OF h] h show ?thesis by blast
qed

text \<open>
  C8, as the claim states it, fails for the maximum height: a projectile shot straight up at
  \<open>10 m/s\<close> from the ground is still flying after its first step, and that step has raised
  its maximum height from \<open>0\<close> to \<open>0.099019\<close>.
\<close>

theorem metrics_before_landing_counterexample:
  "\<not> landed straight_up \<and>
   step straight_up = Inr (integrate (0, - G_EARTH) straight_up) \<and>
   \<not> landed (integrate (0, - G_EARTH) straight_up) \<and>
   max_height straight_up = 0 \<and>
   max_height (integrate (0, - G_EARTH) straight_up) = 0.099019"
  by (simp add: step_def accel_no_air straight_up_fields integrate_fields G_EARTH_def)

text \<open>
  C8, amended. The constructor sets the maximum height to the starting height \<open>y0\<close> and
  flight time, range and final speed to \<open>0.0\<close>. Flight time, range and final speed of a flying
  projectile still hold that \<open>0.0\<close>, and a step that does not land leaves them there. The
  maximum height is a running maximum, never below \<open>y0\<close>: every step, landing or not, sets it
  to the larger of its old value and the new \<open>y\<close>.
\<close>

theorem landing_metrics_unset_until_landing:
  assumes "reachable p" and "\<not> landed p"
  shows "max_height (Projectile_init angle_deg speed m h air_resistance) = h \<and>
         y0 (Projectile_init angle_deg speed m h air_resistance) = h \<and>
         flight_time (Projectile_init angle_deg speed m h air_resistance) = 0 \<and>
         range_m (Projectile_init angle_deg speed m h air_resistance) = 0 \<and>
         final_speed (Projectile_init angle_deg speed m h air_resistance) = 0 \<and>
         flight_time p = 0 \<and> range_m p = 0 \<and> final_speed p = 0 \<and>
         y0 p \<le> max_height p \<and>
         (\<forall>q. step p = Inr q \<longrightarrow>
              y0 q = y0 p \<and>
              max_height q = max (max_height p) (y_cur q) \<and>
              (\<not> landed q \<longrightarrow> flight_time q = 0 \<and> range_m q = 0 \<and> final_speed q = 0))"
proof -
  have i: "max_height (Projectile_init angle_deg speed m h air_resistance) = h"
    "y0 (Projectile_init angle_deg speed m h air_resistance) = h"
    "flight_time (Projectile_init angle_deg speed m h air_resistance) = 0"
    "range_m (Projectile_init angle_deg speed m h air_resistance) = 0"
    "final_speed (Projectile_init angle_deg speed m h air_resistance) = 0"
    by (simp_all add: Projectile_init_def Let_def)
  have w: "trajectory p \<noteq> []" "flight_time p = 0" "range_m p = 0" "final_speed p = 0"
    using reachable_wf[OF assms(1)] assms(2) by (simp_all add: wf_def)
  have "y0 q = y0 p \<and> max_height q = max (max_height p) (y_cur q) \<and>
        (\<not> landed q \<longrightarrow> flight_time q = 0 \<and> range_m q = 0 \<and> final_speed q = 0)"
    if q: "step p = Inr q" for q
  proof -
    from q assms(2) obtain a where a: "accel p = Inr a"
      by (auto simp: step_def split: sum.splits)
    have l: "landed q = (y_cur q \<le> 0)" by (rule step_fields(6)[OF assms(2) w(1) a q])
    show ?thesis
      using step_fields(7)[OF assms(2) w(1) a q] step_not_landing[OF assms(2) w(1) a q] l w
        step_y0[OF q]
      by auto
  qed
  then show ?thesis using w i max_height_above_start[OF assms(1)] by blast
qed

theorem landing_metrics_unset_until_landing_witness:
  "max_height (Projectile_init 0 5 1 10 True) = 10 \<and>
   y0 (Projectile_init 0 5 1 10 True) = 10 \<and>
   reachable straight_up \<and> \<not> landed straight_up \<and>
   step straight_up = Inr (integrate (0, - G_EARTH) straight_up) \<and>
   max_height (integrate (0, - G_EARTH) straight_up) =
     max (max_height straight_up) (y_cur (integrate (0, - G_EARTH) straight_up)) \<and>
   \<not> landed (integrate (0, - G_EARTH) straight_up) \<and>
   flight_time (integrate (0, - G_EARTH) straight_up) = 0 \<and>
   range_m (integrate (0, - G_EARTH) straight_up) = 0 \<and>
   final_speed (integrate (0, - G_EARTH) straight_up) = 0"
proof -
  have r: "reachable straight_up" unfolding straight_up_def by (rule reach_init)
  have n: "\<not> landed (integrate (0, - G_EARTH) straight_up)"
    by (simp add: integrate_fields straight_up_fields)
  from landing_metrics_unset_until_landing[OF r straight_up_fields(1), of 0 5 1 10 True]
    step_straight_up n
  show ?thesis using r straight_up_fields(1) by blast
qed

text \<open>
  C9. Whatever the fields hold, \<^verbatim>\<open>spawn_projectile\<close> appends and selects a projectile built
  with the mass \<open>max(0.0001, mass)\<close> and the starting height \<open>max(0, height)\<close>, so its mass is
  at least \<open>0.0001\<close> and its height at least \<open>0\<close>. Any number of steps of that projectile
  then returns a state, and never an exception: no division meets a zero divisor (the mass
  stays positive; the quotients by \<open>v\<close> stand behind the test \<open>v > 0\<close>).
\<close>

theorem spawn_coerces_and_steps_never_fail:
  "projectiles (spawn_projectile angle_v speed_v mass_v height_v air_on s) =
     projectiles s @ [Projectile_init angle_v speed_v (max 0.0001 mass_v) (max 0 height_v) air_on] \<and>
   selected_index (spawn_projectile angle_v speed_v mass_v height_v air_on s) =
     Some (length (projectiles s)) \<and>
   0.0001 \<le> mass (Projectile_init angle_v speed_v (max 0.0001 mass_v) (max 0 height_v) air_on) \<and>
   0 \<le> y0 (Projectile_init angle_v speed_v (max 0.0001 mass_v) (max 0 height_v) air_on) \<and>
   (\<forall>n. \<exists>q. steps n (Projectile_init angle_v speed_v (max 0.0001 mass_v) (max 0 height_v) air_on) = Inr q
          \<and> 0 < mass q)"
proof -
  define p where "p = Projectile_init angle_v speed_v (max 0.0001 mass_v) (max 0 height_v) air_on"
  have m: "mass p = max 0.0001 mass_v" and h: "y0 p = max 0 height_v"
    by (simp_all add: p_def Projectile_init_def Let_def)
  have pos: "0 < mass p" unfolding m by simp
  have b: "0.0001 \<le> mass p" "0 \<le> y0 p" unfolding m h by simp_all
  have wp: "wf p" unfolding p_def by (rule wf_init)
  have st: "\<forall>n. \<exists>q. steps n p = Inr q \<and> 0 < mass q"
  proof
    fix n
    from steps_total[OF wp pos, of n] obtain q where "steps n p = Inr q" "mass q = mass p"
      by blast
    with pos show "\<exists>q. steps n p = Inr q \<and> 0 < mass q" by simp
  qed
  have s1: "projectiles (spawn_projectile angle_v speed_v mass_v height_v air_on s) =
     projectiles s @ [Projectile_init angle_v speed_v (max 0.0001 mass_v) (max 0 height_v) air_on]"
    by (simp add: spawn_projectile_def Let_def)
  have s2: "selected_index (spawn_projectile angle_v speed_v mass_v height_v air_on s) =
     Some (length (projectiles s))"
    by (simp add: spawn_projectile_def Let_def)
  show ?thesis using s1 s2 b st unfolding p_def by blast
qed

theorem spawn_coerces_and_steps_never_fail_witness:
  "mass (last (projectiles (spawn_projectile 45 25 0 (- 3) True
      \<lparr> projectiles = [], is_playing = True, selected_index = None \<rparr>))) = 0.0001 \<and>
   y0 (last (projectiles (spawn_projectile 45 25 0 (- 3) True
      \<lparr> projectiles = [], is_playing = True, selected_index = None \<rparr>))) = 0 \<and>
   (\<exists>q. steps 3 (Projectile_init 45 25 0.0001 0 True) = Inr q \<and> 0 < mass q)"
proof -
  note t = spawn_coerces_and_steps_never_fail[of 45 25 0 "- 3" True
      "\<lparr> projectiles = [], is_playing = True, selected_index = None \<rparr>"]
  have 1: "max 0.0001 (0::real) = 0.0001" "max 0 (- 3::real) = 0" by simp_all
  from t show ?thesis unfolding 1
    by (auto simp: Projectile_init_def Let_def)
qed




end
